theory Spec2Isabelle
  imports Main "HOL-Library.Char_ord" "HOL-Library.List_Lexorder" "HOL-Library.Multiset"
begin

section \<open>json2go: synthesis of Go type declarations from a tree of type nodes (ast.go)\<close>

subsection \<open>Input data: nodes and options\<close>

text \<open>
  The dynamic type of the field \<open>n.t\<close>, as the type switch of \<open>astTypeFromNode\<close> sees it:
  the ten types the switch names, and \<open>nodeOtherType\<close> for every other dynamic value of
  the interface (a nil interface included), which is what the \<open>default\<close> branch receives.
\<close>

datatype nodeType =
    nodeBoolType
  | nodeIntType
  | nodeFloatType
  | nodeStringType
  | nodeTimeType
  | nodeObjectType
  | nodeExtractedType
  | nodeInterfaceType
  | nodeInitType
  | nodeMapType
  | nodeOtherType

text \<open>
  The struct \<open>node\<close>, with the fields that ast.go reads. \<open>arrayLevel\<close> is a Go \<open>int\<close>, so
  it may be negative; it is only compared with 0 and counted down, which never overflows.
  The tree is read-only, so pointers to children are the children themselves.
\<close>

datatype node = Node
  (t: nodeType)
  (name: string)
  (externalTypeID: string)
  (key: string)
  (children: "node list")
  (arrayLevel: int)
  (arrayWithNulls: bool)
  (nullable: bool)
  (required: bool)
  (root: bool)

record options =
  stringPointersWhenKeyMissing :: bool
  timeAsStr :: bool

subsection \<open>Output data: the part of go/ast that ast.go builds\<close>

datatype basicLit = BasicLit (Value: string)

datatype expr =
    Ident string
  | StarExpr expr
  | ArrayType expr
  | MapType expr expr
  | StructType fieldList
  | InterfaceType fieldList
and fieldList = FieldList (Opening: nat) (List: "field list") (Closing: nat)
and field = Field (Names: "string list") (Type: expr) (Tag: basicLit)

text \<open>\<open>token.TYPE\<close>, the only token that ast.go uses.\<close>

datatype token = tokenTYPE

datatype spec = TypeSpec string expr

datatype decl = GenDecl token "spec list"

text \<open>The panic of the \<open>default\<close> branch of the type switch.\<close>

datatype error = UnknownType

subsection \<open>Library functions used by ast.go\<close>

definition dquote :: char where "dquote = CHR 0x22"
definition bslash :: char where "bslash = CHR 0x5C"
definition bquote :: char where "bquote = CHR 0x60"

definition lowerhex :: "nat \<Rightarrow> char" where
  "lowerhex d = ''0123456789abcdef'' ! (d mod 16)"

text \<open>
  \<open>strconv.appendEscapedRune\<close> with quote character \<open>"\<close>, on one byte. For a byte below
  0x80 this is what Go does: quote and backslash get a backslash, printable characters
  (0x20 to 0x7e) are copied, the seven named control characters get their letter, every other
  control character and 0x7f is written \<open>\xNN\<close>. A byte from 0x80 on is copied, as Go does
  for the bytes of a printable non-ASCII character; what Go does with invalid UTF-8 and
  with unprintable non-ASCII characters is not modelled, and no theorem below depends on
  such keys.
\<close>

definition appendEscapedRune :: "char \<Rightarrow> string" where
  "appendEscapedRune c =
     (let r = (of_char c :: nat) in
      if c = dquote \<or> c = bslash then [bslash, c]
      else if 0x20 \<le> r \<and> r < 0x7F then [c]
      else if 0x80 \<le> r then [c]
      else if r = 0x07 then [bslash, CHR ''a'']
      else if r = 0x08 then [bslash, CHR ''b'']
      else if r = 0x0C then [bslash, CHR ''f'']
      else if r = 0x0A then [bslash, CHR ''n'']
      else if r = 0x0D then [bslash, CHR ''r'']
      else if r = 0x09 then [bslash, CHR ''t'']
      else if r = 0x0B then [bslash, CHR ''v'']
      else [bslash, CHR ''x'', lowerhex (r div 16), lowerhex (r mod 16)])"

text \<open>\<open>fmt.Sprintf("%#v", s)\<close> for a string \<open>s\<close>, which is \<open>strconv.Quote(s)\<close>.\<close>

definition Quote :: "string \<Rightarrow> string" where
  "Quote s = [dquote] @ concat (map appendEscapedRune s) @ [dquote]"

text \<open>\<open>strings.Trim(s, cutset)\<close>: every leading and every trailing character of the cutset goes.\<close>

definition Trim :: "string \<Rightarrow> string \<Rightarrow> string" where
  "Trim s cutset =
     rev (dropWhile (\<lambda>c. c \<in> set cutset) (rev (dropWhile (\<lambda>c. c \<in> set cutset) s)))"

definition TrimPrefix :: "string \<Rightarrow> string \<Rightarrow> string" where
  "TrimPrefix s p = (if take (length p) s = p then drop (length p) s else s)"

text \<open>\<open>strings.TrimSpace\<close> on the white space of ASCII, which is all that go/printer writes.\<close>

definition isSpace :: "char \<Rightarrow> bool" where
  "isSpace c = (c \<in> set [CHR 0x09, CHR 0x0A, CHR 0x0B, CHR 0x0C, CHR 0x0D, CHR 0x20])"

definition TrimSpace :: "string \<Rightarrow> string" where
  "TrimSpace s = rev (dropWhile isSpace (rev (dropWhile isSpace s)))"

subsection \<open>The functions of ast.go\<close>

definition newEmptyInterfaceExpr :: expr where
  "newEmptyInterfaceExpr = InterfaceType (FieldList 1 [] 2)"

definition astTypeShouldBeAPointer :: "node \<Rightarrow> bool \<Rightarrow> bool \<Rightarrow> bool" where
  "astTypeShouldBeAPointer n notRequiredAsPointer allowPointer =
     (if \<not> allowPointer then False
      else if \<not> root n \<and> arrayLevel n = 0 then
        (if nullable n \<or> (\<not> required n \<and> notRequiredAsPointer) then True else False)
      else if arrayLevel n > 0 then
        (if arrayWithNulls n then True else False)
      else False)"

definition astJSONTag :: "string \<Rightarrow> bool \<Rightarrow> basicLit" where
  "astJSONTag k omitempty =
     (let tag = Trim (Quote k) [dquote] in
      BasicLit (if omitempty
                then [bquote] @ ''json:'' @ [dquote] @ tag @ '',omitempty'' @ [dquote] @ [bquote]
                else [bquote] @ ''json:'' @ [dquote] @ tag @ [dquote] @ [bquote]))"

definition astTypeFromExtractedNode :: "node \<Rightarrow> expr" where
  "astTypeFromExtractedNode n =
     (let extName = externalTypeID n in
      Ident (if extName = [] then name n else extName))"

definition astTypeFromTimeNode :: "node \<Rightarrow> options \<Rightarrow> expr" where
  "astTypeFromTimeNode n opts =
     (if timeAsStr opts then Ident ''string''
      else if root n then Ident ''= time.Time''
      else Ident ''time.Time'')"

text \<open>The loop \<open>for i := n.arrayLevel; i > 0; i--\<close> at the end of \<open>astTypeFromNode\<close>.\<close>

function arrayLoop :: "int \<Rightarrow> expr \<Rightarrow> expr" where
  "arrayLoop i resultType =
     (if i > 0 then arrayLoop (i - 1) (ArrayType resultType) else resultType)"
  by pat_completeness auto
termination
  by (relation "measure (\<lambda>(i, e). nat i)") auto

declare arrayLoop.simps [simp del]

text \<open>
  The second half of \<open>astTypeFromNode\<close>, after the type switch: the pointer, then the
  array levels.
\<close>

definition finishType :: "node \<Rightarrow> expr \<Rightarrow> bool \<Rightarrow> bool \<Rightarrow> expr" where
  "finishType n resultType notRequiredAsPointer allowPointer =
     arrayLoop (arrayLevel n)
       (if astTypeShouldBeAPointer n notRequiredAsPointer allowPointer
        then StarExpr resultType else resultType)"

text \<open>
  \<open>sort.Slice\<close> with the comparison \<open>sortedChildren[i].name < sortedChildren[j].name\<close>, on
  the pairs of a child's name and the child. Go compares strings byte by byte, which is
  the lexicographic order of lists of characters. The library promises no stability, so
  ast.go does not fix the order of children with equal names; \<open>sort_key\<close> is the stable
  insertion sort. Where the names are pairwise distinct, every sorting procedure gives
  the same list (\<open>sorted_perm_unique\<close> below).
\<close>

definition sortedChildren :: "node \<Rightarrow> (string \<times> node) list" where
  "sortedChildren n = sort_key fst (map (\<lambda>child. (name child, child)) (children n))"

text \<open>The measure of the recursion over a list of named children.\<close>

definition pairsSize :: "(string \<times> node) list \<Rightarrow> nat" where
  "pairsSize ps = sum_list (map (\<lambda>p. Suc (size (snd p))) ps)"

text \<open>
  The type switch of \<open>astTypeFromNode\<close> is \<open>typeSwitch\<close>: it gives the base type and the
  two flags \<open>notRequiredAsPointer\<close> and \<open>allowPointer\<close>, or panics. The loop over the
  sorted children in \<open>astStructTypeFromNode\<close> is \<open>fieldLoop\<close>. A panic anywhere below
  ends every caller.
\<close>

function typeSwitch :: "node \<Rightarrow> options \<Rightarrow> error + (expr \<times> bool \<times> bool)"
  and astTypeFromNode :: "node \<Rightarrow> options \<Rightarrow> error + expr"
  and astTypeFromMapNode :: "node \<Rightarrow> options \<Rightarrow> error + expr"
  and astStructTypeFromNode :: "node \<Rightarrow> options \<Rightarrow> error + expr"
  and fieldLoop :: "(string \<times> node) list \<Rightarrow> options \<Rightarrow> error + field list"
where
  "typeSwitch n opts =
     (case t n of
        nodeBoolType \<Rightarrow> Inr (Ident ''bool'', True, True)
      | nodeIntType \<Rightarrow> Inr (Ident ''int64'', True, True)
      | nodeFloatType \<Rightarrow> Inr (Ident ''float64'', True, True)
      | nodeStringType \<Rightarrow> Inr (Ident ''string'', stringPointersWhenKeyMissing opts, True)
      | nodeTimeType \<Rightarrow>
          Inr (astTypeFromTimeNode n opts,
               (if timeAsStr opts then stringPointersWhenKeyMissing opts else True), True)
      | nodeObjectType \<Rightarrow>
          (case astStructTypeFromNode n opts of
             Inl e \<Rightarrow> Inl e
           | Inr resultType \<Rightarrow> Inr (resultType, True, True))
      | nodeExtractedType \<Rightarrow> Inr (astTypeFromExtractedNode n, True, True)
      | nodeInterfaceType \<Rightarrow> Inr (newEmptyInterfaceExpr, True, False)
      | nodeInitType \<Rightarrow> Inr (newEmptyInterfaceExpr, True, False)
      | nodeMapType \<Rightarrow>
          (case astTypeFromMapNode n opts of
             Inl e \<Rightarrow> Inl e
           | Inr resultType \<Rightarrow> Inr (resultType, True, False))
      | nodeOtherType \<Rightarrow> Inl UnknownType)"
| "astTypeFromNode n opts =
     (case typeSwitch n opts of
        Inl e \<Rightarrow> Inl e
      | Inr (resultType, notRequiredAsPointer, allowPointer) \<Rightarrow>
          Inr (finishType n resultType notRequiredAsPointer allowPointer))"
| "astTypeFromMapNode n opts =
     (case (if length (children n) = 0 then Inr newEmptyInterfaceExpr
            else astTypeFromNode (children n ! 0) opts) of
        Inl e \<Rightarrow> Inl e
      | Inr ve \<Rightarrow> Inr (MapType (Ident ''string'') ve))"
| "astStructTypeFromNode n opts =
     (case fieldLoop (sortedChildren n) opts of
        Inl e \<Rightarrow> Inl e
      | Inr fs \<Rightarrow> Inr (StructType (FieldList 0 fs 0)))"
| "fieldLoop [] opts = Inr []"
| "fieldLoop (child # rest) opts =
     (case astTypeFromNode (snd child) opts of
        Inl e \<Rightarrow> Inl e
      | Inr ty \<Rightarrow>
          (case fieldLoop rest opts of
             Inl e \<Rightarrow> Inl e
           | Inr fs \<Rightarrow>
               Inr (Field [fst child] ty (astJSONTag (key (snd child)) (\<not> required (snd child)))
                    # fs)))"
  by pat_completeness auto
termination
proof -
  have ins: "sum_list (map g (insort_key f x xs)) = (g x :: nat) + sum_list (map g xs)"
    for g :: "string \<times> node \<Rightarrow> nat" and f :: "string \<times> node \<Rightarrow> string" and x xs
    by (induction xs) auto
  have srt: "sum_list (map g (sort_key f xs)) = sum_list (map g xs)"
    for g :: "string \<times> node \<Rightarrow> nat" and f :: "string \<times> node \<Rightarrow> string" and xs
    by (induction xs) (auto simp: ins)
  have pairs: "sum_list (map (\<lambda>p. Suc (size (snd p))) (map (\<lambda>child. (name child, child)) cs))
        = size_list size cs" for cs :: "node list"
    by (induction cs) simp_all
  have sorted_size: "pairsSize (sortedChildren n) = size_list size (children n)" for n
    using pairs [of "children n"] by (simp add: pairsSize_def sortedChildren_def srt comp_def)
  have node_size: "size n = Suc (size_list size (children n))" for n :: node
    by (cases n) simp
  have first: "cs \<noteq> [] \<Longrightarrow> size (cs ! 0) < size_list size cs" for cs :: "node list"
    by (cases cs) simp_all
  show ?thesis
    apply (relation "measure (\<lambda>x. case x of
        Inl (Inl (n, _)) \<Rightarrow> 3 * size n + 1
      | Inl (Inr (n, _)) \<Rightarrow> 3 * size n + 2
      | Inr (Inl (n, _)) \<Rightarrow> 3 * size n
      | Inr (Inr (Inl (n, _))) \<Rightarrow> 3 * size n
      | Inr (Inr (Inr (ps, _))) \<Rightarrow> 3 * pairsSize ps)")
    subgoal by simp
    subgoal by simp
    subgoal by simp
    subgoal by simp
    subgoal for n opts
      using first [of "children n"] by (simp add: node_size)
    subgoal by (simp add: sorted_size node_size)
    subgoal by (simp add: pairsSize_def)
    subgoal by (simp add: pairsSize_def)
    done
qed

declare typeSwitch.simps [simp del]
declare astTypeFromNode.simps [simp del]
declare astTypeFromMapNode.simps [simp del]
declare astStructTypeFromNode.simps [simp del]

text \<open>The loop of \<open>astMakeDecls\<close>: one declaration for each root node, in order.\<close>

fun astMakeDecls :: "node list \<Rightarrow> options \<Rightarrow> error + decl list" where
  "astMakeDecls [] opts = Inr []"
| "astMakeDecls (n # rootNodes) opts =
     (case astTypeFromNode n opts of
        Inl e \<Rightarrow> Inl e
      | Inr ty \<Rightarrow>
          (case astMakeDecls rootNodes opts of
             Inl e \<Rightarrow> Inl e
           | Inr decls \<Rightarrow> Inr (GenDecl tokenTYPE [TypeSpec (name n) ty] # decls)))"

text \<open>
  \<open>astPrintDecls\<close>. The printer of go/printer, with the settings of gofmt, applied to the
  file \<open>package main\<close> holding the declarations, is the parameter \<open>Fprint\<close>.
\<close>

definition astPrintDecls :: "(decl list \<Rightarrow> string) \<Rightarrow> decl list \<Rightarrow> string" where
  "astPrintDecls Fprint decls = TrimSpace (TrimPrefix (Fprint decls) ''package main'')"

text \<open>
  Modelled from the spec: the caller of \<open>astMakeDecls\<close> and \<open>astPrintDecls\<close> is not in
  ast.go; section 4.5 of the specification has \<open>emit\<close> make the declarations of the root
  nodes and print them in one batch.
\<close>

definition emit :: "(decl list \<Rightarrow> string) \<Rightarrow> node list \<Rightarrow> options \<Rightarrow> error + string" where
  "emit Fprint rootNodes opts =
     (case astMakeDecls rootNodes opts of
        Inl e \<Rightarrow> Inl e
      | Inr decls \<Rightarrow> Inr (astPrintDecls Fprint decls))"

subsection \<open>Notions used in the statements\<close>




text \<open>
  The nodes that the recursion of \<open>astTypeFromNode\<close> calls itself on: the node, every
  child of an object node, the first child of a map node, and nothing below a node of
  another kind.
\<close>

fun reached :: "node \<Rightarrow> node list" where
  "reached (Node ty nm ex k cs al awn nl rq rt) =
     Node ty nm ex k cs al awn nl rq rt #
       (if ty = nodeObjectType then concat (map reached cs)
        else if ty = nodeMapType then (case cs of [] \<Rightarrow> [] | c # _ \<Rightarrow> reached c)
        else [])"

text \<open>All nodes of a tree.\<close>

fun nodesOf :: "node \<Rightarrow> node list" where
  "nodesOf (Node ty nm ex k cs al awn nl rq rt) =
     Node ty nm ex k cs al awn nl rq rt # concat (map nodesOf cs)"

text \<open>A kind that the type switch names.\<close>

definition recognized :: "node \<Rightarrow> bool" where
  "recognized n = (t n \<noteq> nodeOtherType)"



section \<open>Properties\<close>

subsection \<open>Auxiliary facts\<close>

lemma arrayLoop_nonpos: "i \<le> 0 \<Longrightarrow> arrayLoop i e = e"
  by (simp add: arrayLoop.simps)

lemma arrayLoop_funpow: "arrayLoop i e = (ArrayType ^^ nat i) e"
proof (induction i e rule: arrayLoop.induct)
  case (1 i resultType)
  show ?case
  proof (cases "i > 0")
    case True
    then have "nat i = Suc (nat (i - 1))" by simp
    with True 1 show ?thesis
      by (simp add: arrayLoop.simps [of i] funpow_Suc_right del: funpow.simps)
  next
    case False
    then show ?thesis by (simp add: arrayLoop.simps [of i])
  qed
qed

lemma astTypeFromNode_switch:
  "typeSwitch n opts = Inr (b, nr, ap) \<Longrightarrow>
   astTypeFromNode n opts = Inr (finishType n b nr ap)"
  by (simp add: astTypeFromNode.simps)

lemma astTypeFromNode_panic:
  "typeSwitch n opts = Inl e \<Longrightarrow> astTypeFromNode n opts = Inl e"
  by (simp add: astTypeFromNode.simps)

lemma finishType_scalar:
  "\<not> root n \<Longrightarrow> arrayLevel n = 0 \<Longrightarrow>
   finishType n b nr True = (if nullable n \<or> (\<not> required n \<and> nr) then StarExpr b else b)"
  by (simp add: finishType_def astTypeShouldBeAPointer_def arrayLoop_nonpos)

lemma finishType_root:
  "root n \<Longrightarrow> arrayLevel n = 0 \<Longrightarrow> finishType n b nr ap = b"
  by (simp add: finishType_def astTypeShouldBeAPointer_def arrayLoop_nonpos)

lemma finishType_array:
  "0 < arrayLevel n \<Longrightarrow>
   finishType n b nr True =
     (ArrayType ^^ nat (arrayLevel n)) (if arrayWithNulls n then StarExpr b else b)"
  by (simp add: finishType_def astTypeShouldBeAPointer_def arrayLoop_funpow)

lemma finishType_no_pointer:
  "finishType n b nr False = (ArrayType ^^ nat (arrayLevel n)) b"
  by (simp add: finishType_def astTypeShouldBeAPointer_def arrayLoop_funpow)

lemma funpow_ArrayType_not_star: "(ArrayType ^^ k) (MapType a b) \<noteq> StarExpr e"
  by (cases k) simp_all

lemmas ast_simps =
  typeSwitch.simps astTypeFromNode.simps astTypeFromMapNode.simps astStructTypeFromNode.simps

lemmas eval_simps =
  ast_simps sortedChildren_def finishType_def astTypeShouldBeAPointer_def arrayLoop.simps
  astJSONTag_def Quote_def Trim_def appendEscapedRune_def dquote_def bslash_def bquote_def
  astTypeFromTimeNode_def astTypeFromExtractedNode_def newEmptyInterfaceExpr_def

subsection \<open>The end-to-end example\<close>

text \<open>
  Claim C1. The root object node \<open>Person\<close> with a required string child \<open>name\<close> and a
  not required integer child \<open>age\<close>, neither nullable nor an array, under the options
  \<open>stringPointersWhenKeyMissing = true\<close> and \<open>timeAsStr = false\<close>, gives one declaration
  of the struct type \<open>Person\<close> with the fields \<open>age\<close> of type \<open>*int64\<close> with the tag
  \<open>json:"age,omitempty"\<close> and then \<open>name\<close> of type \<open>string\<close> with the tag
  \<open>json:"name"\<close>, in whichever order the two children come, and \<open>emit\<close> prints that
  declaration.
\<close>

theorem person_declaration:
  "astMakeDecls
     [Node nodeObjectType ''Person'' ext k
        [Node nodeStringType ''name'' ext1 ''name'' cs1 0 awn1 False True False,
         Node nodeIntType ''age'' ext2 ''age'' cs2 0 awn2 False False False]
        0 awn nl rq True]
     \<lparr>stringPointersWhenKeyMissing = True, timeAsStr = False\<rparr>
   = Inr [GenDecl tokenTYPE [TypeSpec ''Person'' (StructType (FieldList 0
       [Field [''age''] (StarExpr (Ident ''int64''))
          (BasicLit ([bquote] @ ''json:'' @ [dquote] @ ''age,omitempty'' @ [dquote, bquote])),
        Field [''name''] (Ident ''string'')
          (BasicLit ([bquote] @ ''json:'' @ [dquote] @ ''name'' @ [dquote, bquote]))] 0))]]
 \<and> astMakeDecls
     [Node nodeObjectType ''Person'' ext k
        [Node nodeIntType ''age'' ext2 ''age'' cs2 0 awn2 False False False,
         Node nodeStringType ''name'' ext1 ''name'' cs1 0 awn1 False True False]
        0 awn nl rq True]
     \<lparr>stringPointersWhenKeyMissing = True, timeAsStr = False\<rparr>
   = Inr [GenDecl tokenTYPE [TypeSpec ''Person'' (StructType (FieldList 0
       [Field [''age''] (StarExpr (Ident ''int64''))
          (BasicLit ([bquote] @ ''json:'' @ [dquote] @ ''age,omitempty'' @ [dquote, bquote])),
        Field [''name''] (Ident ''string'')
          (BasicLit ([bquote] @ ''json:'' @ [dquote] @ ''name'' @ [dquote, bquote]))] 0))]]
 \<and> emit Fprint
     [Node nodeObjectType ''Person'' ext k
        [Node nodeStringType ''name'' ext1 ''name'' cs1 0 awn1 False True False,
         Node nodeIntType ''age'' ext2 ''age'' cs2 0 awn2 False False False]
        0 awn nl rq True]
     \<lparr>stringPointersWhenKeyMissing = True, timeAsStr = False\<rparr>
   = Inr (astPrintDecls Fprint [GenDecl tokenTYPE [TypeSpec ''Person'' (StructType (FieldList 0
       [Field [''age''] (StarExpr (Ident ''int64''))
          (BasicLit ([bquote] @ ''json:'' @ [dquote] @ ''age,omitempty'' @ [dquote, bquote])),
        Field [''name''] (Ident ''string'')
          (BasicLit ([bquote] @ ''json:'' @ [dquote] @ ''name'' @ [dquote, bquote]))] 0))]])"
  by (simp add: eval_simps emit_def)

subsection \<open>Pointers for scalars\<close>

text \<open>
  Claim C2, as the specification states it, says that a node of boolean, integer or float
  kind that is not root, not an array and not nullable never gets a pointer type, whether
  it is required or not. The code gives a not required integer node the type \<open>*int64\<close>.
\<close>

theorem optional_integer_is_pointer:
  "astTypeFromNode (Node nodeIntType ''age'' [] ''age'' [] 0 False False False False)
     \<lparr>stringPointersWhenKeyMissing = False, timeAsStr = False\<rparr>
   = Inr (StarExpr (Ident ''int64''))"
  by (simp add: eval_simps)

text \<open>
  Claim C2, amended. For every node of boolean, integer or float kind that is not root
  and not an array, the synthesized type is the pointer to the primitive type if the node
  is nullable or not required, and the primitive type otherwise, whatever the options
  are: for these kinds a not required node always counts as a pointer, and the option
  \<open>stringPointersWhenKeyMissing\<close> plays no part.
\<close>

theorem numeric_pointer_rule:
  assumes "\<not> root n" and "arrayLevel n = 0"
    and "t n = nodeBoolType \<or> t n = nodeIntType \<or> t n = nodeFloatType"
  shows "astTypeFromNode n opts =
    Inr (let b = Ident (if t n = nodeBoolType then ''bool''
                        else if t n = nodeIntType then ''int64'' else ''float64'')
         in if nullable n \<or> \<not> required n then StarExpr b else b)"
proof -
  let ?b = "Ident (if t n = nodeBoolType then ''bool''
                   else if t n = nodeIntType then ''int64'' else ''float64'')"
  from assms(3) have "typeSwitch n opts = Inr (?b, True, True)"
    by (auto simp: typeSwitch.simps)
  from astTypeFromNode_switch [OF this] show ?thesis
    using assms(1,2) by (simp add: finishType_scalar Let_def)
qed

theorem numeric_pointer_rule_witness:
  "astTypeFromNode (Node nodeFloatType ''price'' [] ''price'' [] 0 False False True False)
     \<lparr>stringPointersWhenKeyMissing = True, timeAsStr = False\<rparr>
   = Inr (Ident ''float64'')
 \<and> astTypeFromNode (Node nodeBoolType ''done'' [] ''done'' [] 0 False False False False)
     \<lparr>stringPointersWhenKeyMissing = False, timeAsStr = True\<rparr>
   = Inr (StarExpr (Ident ''bool''))"
  using numeric_pointer_rule
          [of "Node nodeFloatType ''price'' [] ''price'' [] 0 False False True False"
              "\<lparr>stringPointersWhenKeyMissing = True, timeAsStr = False\<rparr>"]
        numeric_pointer_rule
          [of "Node nodeBoolType ''done'' [] ''done'' [] 0 False False False False"
              "\<lparr>stringPointersWhenKeyMissing = False, timeAsStr = True\<rparr>"]
  by simp

text \<open>
  Claim C3. For a string node that is not root and not an array, under
  \<open>stringPointersWhenKeyMissing = true\<close>: not nullable and required gives \<open>string\<close>, not
  nullable and not required gives \<open>*string\<close>; a nullable node gives \<open>*string\<close> whether
  it is required or not.
\<close>

theorem string_pointer_rule:
  assumes "\<not> root n" and "arrayLevel n = 0" and "t n = nodeStringType"
  shows "(stringPointersWhenKeyMissing opts \<and> \<not> nullable n \<and> required n \<longrightarrow>
            astTypeFromNode n opts = Inr (Ident ''string''))
       \<and> (stringPointersWhenKeyMissing opts \<and> \<not> nullable n \<and> \<not> required n \<longrightarrow>
            astTypeFromNode n opts = Inr (StarExpr (Ident ''string'')))
       \<and> (nullable n \<longrightarrow> astTypeFromNode n opts = Inr (StarExpr (Ident ''string'')))"
proof -
  from assms(3)
  have "typeSwitch n opts = Inr (Ident ''string'', stringPointersWhenKeyMissing opts, True)"
    by (simp add: typeSwitch.simps)
  from astTypeFromNode_switch [OF this] show ?thesis
    using assms(1,2) by (simp add: finishType_scalar)
qed

theorem string_pointer_rule_witness:
  "astTypeFromNode (Node nodeStringType ''title'' [] ''title'' [] 0 False False True False)
     \<lparr>stringPointersWhenKeyMissing = True, timeAsStr = False\<rparr>
   = Inr (Ident ''string'')
 \<and> astTypeFromNode (Node nodeStringType ''title'' [] ''title'' [] 0 False False False False)
     \<lparr>stringPointersWhenKeyMissing = True, timeAsStr = False\<rparr>
   = Inr (StarExpr (Ident ''string''))
 \<and> astTypeFromNode (Node nodeStringType ''title'' [] ''title'' [] 0 False True True False)
     \<lparr>stringPointersWhenKeyMissing = True, timeAsStr = False\<rparr>
   = Inr (StarExpr (Ident ''string''))"
  using string_pointer_rule
          [of "Node nodeStringType ''title'' [] ''title'' [] 0 False False True False"
              "\<lparr>stringPointersWhenKeyMissing = True, timeAsStr = False\<rparr>"]
        string_pointer_rule
          [of "Node nodeStringType ''title'' [] ''title'' [] 0 False False False False"
              "\<lparr>stringPointersWhenKeyMissing = True, timeAsStr = False\<rparr>"]
        string_pointer_rule
          [of "Node nodeStringType ''title'' [] ''title'' [] 0 False True True False"
              "\<lparr>stringPointersWhenKeyMissing = True, timeAsStr = False\<rparr>"]
  by simp

subsection \<open>Arrays\<close>

text \<open>
  Claim C4. For a node of a kind that may be a pointer (any kind but interface, init and
  map) whose base type is \<open>b\<close>: with \<open>arrayLevel = 1\<close> the synthesized type is
  \<open>[]*b\<close> if \<open>arrayWithNulls\<close> is set and \<open>[]b\<close> if it is not, whatever \<open>nullable\<close>,
  \<open>required\<close> and \<open>root\<close> are; in general the pointer is decided once, from the node's
  own flags, and the result is wrapped in \<open>arrayLevel\<close> array levels.
\<close>

theorem array_pointer_rule:
  assumes "t n \<noteq> nodeInterfaceType" and "t n \<noteq> nodeInitType" and "t n \<noteq> nodeMapType"
    and "typeSwitch n opts = Inr (b, notRequiredAsPointer, allowPointer)"
  shows "(arrayLevel n = 1 \<longrightarrow>
            astTypeFromNode n opts =
              Inr (ArrayType (if arrayWithNulls n then StarExpr b else b)))
       \<and> (0 < arrayLevel n \<longrightarrow>
            astTypeFromNode n opts =
              Inr ((ArrayType ^^ nat (arrayLevel n))
                     (if arrayWithNulls n then StarExpr b else b)))"
proof -
  from assms have ap: "allowPointer"
    by (auto simp: typeSwitch.simps split: nodeType.splits sum.splits)
  from astTypeFromNode_switch [OF assms(4)] ap show ?thesis
    by (auto simp: finishType_array)
qed

theorem array_pointer_rule_witness:
  "astTypeFromNode (Node nodeIntType ''ids'' [] ''ids'' [] 1 True False True False)
     \<lparr>stringPointersWhenKeyMissing = False, timeAsStr = False\<rparr>
   = Inr (ArrayType (StarExpr (Ident ''int64'')))
 \<and> astTypeFromNode (Node nodeIntType ''ids'' [] ''ids'' [] 1 False True False False)
     \<lparr>stringPointersWhenKeyMissing = False, timeAsStr = False\<rparr>
   = Inr (ArrayType (Ident ''int64''))
 \<and> astTypeFromNode (Node nodeStringType ''grid'' [] ''grid'' [] 2 True False True False)
     \<lparr>stringPointersWhenKeyMissing = False, timeAsStr = False\<rparr>
   = Inr (ArrayType (ArrayType (StarExpr (Ident ''string''))))"
  using array_pointer_rule
          [of "Node nodeIntType ''ids'' [] ''ids'' [] 1 True False True False"
              "\<lparr>stringPointersWhenKeyMissing = False, timeAsStr = False\<rparr>"
              "Ident ''int64''" True True]
        array_pointer_rule
          [of "Node nodeIntType ''ids'' [] ''ids'' [] 1 False True False False"
              "\<lparr>stringPointersWhenKeyMissing = False, timeAsStr = False\<rparr>"
              "Ident ''int64''" True True]
        array_pointer_rule
          [of "Node nodeStringType ''grid'' [] ''grid'' [] 2 True False True False"
              "\<lparr>stringPointersWhenKeyMissing = False, timeAsStr = False\<rparr>"
              "Ident ''string''" False True]
  by (simp add: typeSwitch.simps numeral_2_eq_2)

subsection \<open>Maps\<close>

text \<open>
  Claim C5. A map node has at most one child (an invariant of the data model, section 3
  of the specification). Its synthesized type is the map from \<open>string\<close> to the
  synthesized type of the child when there is exactly one child, and to the empty
  interface otherwise, inside the node's array levels; it is never a pointer, nullable or
  not, required or not.
\<close>

theorem map_type:
  assumes "t n = nodeMapType" and "length (children n) \<le> 1"
  shows "(\<forall>c v. children n = [c] \<and> astTypeFromNode c opts = Inr v \<longrightarrow>
            astTypeFromNode n opts =
              Inr ((ArrayType ^^ nat (arrayLevel n)) (MapType (Ident ''string'') v)))
       \<and> (length (children n) \<noteq> 1 \<longrightarrow>
            astTypeFromNode n opts =
              Inr ((ArrayType ^^ nat (arrayLevel n))
                     (MapType (Ident ''string'') newEmptyInterfaceExpr)))
       \<and> (\<forall>e. astTypeFromNode n opts \<noteq> Inr (StarExpr e))"
proof -
  have one: "astTypeFromNode n opts =
      Inr ((ArrayType ^^ nat (arrayLevel n)) (MapType (Ident ''string'') v))"
    if "children n = [c]" and "astTypeFromNode c opts = Inr v" for c v
  proof -
    from that have "astTypeFromMapNode n opts = Inr (MapType (Ident ''string'') v)"
      by (simp add: astTypeFromMapNode.simps)
    with assms(1) have "typeSwitch n opts = Inr (MapType (Ident ''string'') v, True, False)"
      by (simp add: typeSwitch.simps)
    from astTypeFromNode_switch [OF this] show ?thesis
      by (simp add: finishType_no_pointer)
  qed
  have none: "astTypeFromNode n opts =
      Inr ((ArrayType ^^ nat (arrayLevel n)) (MapType (Ident ''string'') newEmptyInterfaceExpr))"
    if "length (children n) \<noteq> 1"
  proof -
    from that assms(2) have "children n = []" by (cases "children n") auto
    then have "astTypeFromMapNode n opts = Inr (MapType (Ident ''string'') newEmptyInterfaceExpr)"
      by (simp add: astTypeFromMapNode.simps)
    with assms(1)
    have "typeSwitch n opts = Inr (MapType (Ident ''string'') newEmptyInterfaceExpr, True, False)"
      by (simp add: typeSwitch.simps)
    from astTypeFromNode_switch [OF this] show ?thesis
      by (simp add: finishType_no_pointer)
  qed
  have never: "astTypeFromNode n opts \<noteq> Inr (StarExpr e)" for e
  proof (cases "astTypeFromMapNode n opts")
    case (Inl err)
    with assms(1) have "typeSwitch n opts = Inl err"
      by (simp add: typeSwitch.simps)
    from astTypeFromNode_panic [OF this] show ?thesis by simp
  next
    case (Inr m)
    then obtain ve where m: "m = MapType (Ident ''string'') ve"
      by (auto simp: astTypeFromMapNode.simps split: sum.splits)
    from Inr assms(1) have "typeSwitch n opts = Inr (m, True, False)"
      by (simp add: typeSwitch.simps)
    from astTypeFromNode_switch [OF this] show ?thesis
      by (simp add: finishType_no_pointer m funpow_ArrayType_not_star)
  qed
  from one none never show ?thesis by blast
qed

theorem map_type_witness:
  "astTypeFromNode
     (Node nodeMapType ''scores'' [] ''scores''
        [Node nodeFloatType ''score'' [] ''score'' [] 0 False False True False]
        0 False True False False)
     \<lparr>stringPointersWhenKeyMissing = True, timeAsStr = False\<rparr>
   = Inr (MapType (Ident ''string'') (Ident ''float64''))
 \<and> astTypeFromNode (Node nodeMapType ''scores'' [] ''scores'' [] 0 False True False False)
     \<lparr>stringPointersWhenKeyMissing = True, timeAsStr = False\<rparr>
   = Inr (MapType (Ident ''string'') (InterfaceType (FieldList 1 [] 2)))"
  using map_type
          [of "Node nodeMapType ''scores'' [] ''scores''
                 [Node nodeFloatType ''score'' [] ''score'' [] 0 False False True False]
                 0 False True False False"
              "\<lparr>stringPointersWhenKeyMissing = True, timeAsStr = False\<rparr>"]
        map_type
          [of "Node nodeMapType ''scores'' [] ''scores'' [] 0 False True False False"
              "\<lparr>stringPointersWhenKeyMissing = True, timeAsStr = False\<rparr>"]
  by (simp add: eval_simps)

text \<open>
  With more than one child, which the data model excludes, the value type of the map is
  the type of the first child.
\<close>

lemma map_value_is_first_child:
  assumes "t n = nodeMapType" and "children n = c # rest"
    and "astTypeFromNode c opts = Inr v"
  shows "astTypeFromNode n opts =
           Inr ((ArrayType ^^ nat (arrayLevel n)) (MapType (Ident ''string'') v))"
proof -
  from assms(2,3) have "astTypeFromMapNode n opts = Inr (MapType (Ident ''string'') v)"
    by (simp add: astTypeFromMapNode.simps)
  with assms(1) have "typeSwitch n opts = Inr (MapType (Ident ''string'') v, True, False)"
    by (simp add: typeSwitch.simps)
  from astTypeFromNode_switch [OF this] show ?thesis
    by (simp add: finishType_no_pointer)
qed

subsection \<open>Timestamps\<close>

text \<open>
  Claim C6. For a timestamp node with \<open>timeAsStr = false\<close> the base type is the alias
  form \<open>= time.Time\<close> at the root and \<open>time.Time\<close> elsewhere. With \<open>timeAsStr = true\<close>
  the base type is \<open>string\<close> at the root and elsewhere, and a node that is not root and
  not an array follows the pointer rule of scalars with \<open>stringPointersWhenKeyMissing\<close>
  as its flag. A root node that is not an array gets its base type as it is.
\<close>

theorem timestamp_types:
  assumes "t n = nodeTimeType"
  shows "(\<not> timeAsStr opts \<and> root n \<longrightarrow> astTypeFromTimeNode n opts = Ident ''= time.Time'')
       \<and> (\<not> timeAsStr opts \<and> \<not> root n \<longrightarrow> astTypeFromTimeNode n opts = Ident ''time.Time'')
       \<and> (timeAsStr opts \<longrightarrow> astTypeFromTimeNode n opts = Ident ''string'')
       \<and> (\<exists>flag. typeSwitch n opts = Inr (astTypeFromTimeNode n opts, flag, True))
       \<and> (root n \<and> arrayLevel n = 0 \<longrightarrow>
            astTypeFromNode n opts = Inr (astTypeFromTimeNode n opts))
       \<and> (timeAsStr opts \<and> \<not> root n \<and> arrayLevel n = 0 \<longrightarrow>
            astTypeFromNode n opts =
              Inr (if nullable n \<or> (\<not> required n \<and> stringPointersWhenKeyMissing opts)
                   then StarExpr (Ident ''string'') else Ident ''string''))"
proof -
  let ?flag = "if timeAsStr opts then stringPointersWhenKeyMissing opts else True"
  from assms have sw: "typeSwitch n opts = Inr (astTypeFromTimeNode n opts, ?flag, True)"
    by (simp add: typeSwitch.simps)
  from astTypeFromNode_switch [OF sw] sw show ?thesis
    by (auto simp: astTypeFromTimeNode_def finishType_root finishType_scalar)
qed

theorem timestamp_types_witness:
  "astTypeFromNode (Node nodeTimeType ''Stamp'' [] [] [] 0 False False True True)
     \<lparr>stringPointersWhenKeyMissing = True, timeAsStr = False\<rparr>
   = Inr (Ident ''= time.Time'')
 \<and> astTypeFromTimeNode (Node nodeTimeType ''at'' [] ''at'' [] 0 False False True False)
     \<lparr>stringPointersWhenKeyMissing = True, timeAsStr = False\<rparr>
   = Ident ''time.Time''
 \<and> astTypeFromNode (Node nodeTimeType ''Stamp'' [] [] [] 0 False False True True)
     \<lparr>stringPointersWhenKeyMissing = True, timeAsStr = True\<rparr>
   = Inr (Ident ''string'')
 \<and> astTypeFromNode (Node nodeTimeType ''at'' [] ''at'' [] 0 False False False False)
     \<lparr>stringPointersWhenKeyMissing = False, timeAsStr = True\<rparr>
   = Inr (Ident ''string'')
 \<and> astTypeFromNode (Node nodeTimeType ''at'' [] ''at'' [] 0 False False False False)
     \<lparr>stringPointersWhenKeyMissing = True, timeAsStr = True\<rparr>
   = Inr (StarExpr (Ident ''string''))"
  using timestamp_types
          [of "Node nodeTimeType ''Stamp'' [] [] [] 0 False False True True"
              "\<lparr>stringPointersWhenKeyMissing = True, timeAsStr = False\<rparr>"]
        timestamp_types
          [of "Node nodeTimeType ''at'' [] ''at'' [] 0 False False True False"
              "\<lparr>stringPointersWhenKeyMissing = True, timeAsStr = False\<rparr>"]
        timestamp_types
          [of "Node nodeTimeType ''Stamp'' [] [] [] 0 False False True True"
              "\<lparr>stringPointersWhenKeyMissing = True, timeAsStr = True\<rparr>"]
        timestamp_types
          [of "Node nodeTimeType ''at'' [] ''at'' [] 0 False False False False"
              "\<lparr>stringPointersWhenKeyMissing = False, timeAsStr = True\<rparr>"]
        timestamp_types
          [of "Node nodeTimeType ''at'' [] ''at'' [] 0 False False False False"
              "\<lparr>stringPointersWhenKeyMissing = True, timeAsStr = True\<rparr>"]
  by simp

text \<open>
  Claim C10. A timestamp node that is not root, not an array, not nullable and not
  required, under \<open>timeAsStr = false\<close>, gets the type \<open>*time.Time\<close> whatever
  \<open>stringPointersWhenKeyMissing\<close> is.
\<close>

theorem optional_timestamp_is_pointer:
  assumes "\<not> root n" and "arrayLevel n = 0" and "t n = nodeTimeType"
    and "\<not> nullable n" and "\<not> required n" and "\<not> timeAsStr opts"
  shows "astTypeFromNode n opts = Inr (StarExpr (Ident ''time.Time''))"
proof -
  from assms(3,6) have "typeSwitch n opts = Inr (astTypeFromTimeNode n opts, True, True)"
    by (simp add: typeSwitch.simps)
  from astTypeFromNode_switch [OF this] show ?thesis
    using assms by (simp add: finishType_scalar astTypeFromTimeNode_def)
qed

theorem optional_timestamp_is_pointer_witness:
  "astTypeFromNode (Node nodeTimeType ''at'' [] ''at'' [] 0 False False False False)
     \<lparr>stringPointersWhenKeyMissing = False, timeAsStr = False\<rparr>
   = Inr (StarExpr (Ident ''time.Time''))
 \<and> astTypeFromNode (Node nodeTimeType ''at'' [] ''at'' [] 0 False False False False)
     \<lparr>stringPointersWhenKeyMissing = True, timeAsStr = False\<rparr>
   = Inr (StarExpr (Ident ''time.Time''))"
  using optional_timestamp_is_pointer
          [of "Node nodeTimeType ''at'' [] ''at'' [] 0 False False False False"
              "\<lparr>stringPointersWhenKeyMissing = False, timeAsStr = False\<rparr>"]
        optional_timestamp_is_pointer
          [of "Node nodeTimeType ''at'' [] ''at'' [] 0 False False False False"
              "\<lparr>stringPointersWhenKeyMissing = True, timeAsStr = False\<rparr>"]
  by simp

subsection \<open>Field tags\<close>




















text \<open>
  A key that ends with a double quote loses it: \<open>Trim\<close> takes the escaped quote of the
  key away together with the closing quote of \<open>Quote\<close>, and the tag of the key \<open>a"\<close> is
  \<open>json:"a\"\<close>.
\<close>

lemma trailing_quote_is_trimmed:
  "astJSONTag [CHR ''a'', dquote] False
   = BasicLit ([bquote] @ ''json:'' @ [dquote] @ [CHR ''a'', bslash] @ [dquote, bquote])"
  by (simp add: eval_simps)

subsection \<open>Unknown kinds\<close>

lemma reached_unfold:
  "reached n = n # (if t n = nodeObjectType then concat (map reached (children n))
        else if t n = nodeMapType then (case children n of [] \<Rightarrow> [] | c # _ \<Rightarrow> reached c)
        else [])"
  by (cases n) simp

lemma error_is_UnknownType: "(e :: error) = UnknownType"
  by (cases e)

lemma synthesis_succeeds_iff:
  "(\<exists>r. typeSwitch n opts = Inr r) = list_all recognized (reached n)"
  "(\<exists>r. astTypeFromNode n opts = Inr r) = list_all recognized (reached n)"
  "(\<exists>r. astTypeFromMapNode n opts = Inr r) =
     (case children n of [] \<Rightarrow> True | c # _ \<Rightarrow> list_all recognized (reached c))"
  "(\<exists>r. astStructTypeFromNode n opts = Inr r) =
     (\<forall>c\<in>set (children n). list_all recognized (reached c))"
  "(\<exists>r. fieldLoop ps opts = Inr r) = (\<forall>p\<in>set ps. list_all recognized (reached (snd p)))"
proof (induction n opts and n opts and n opts and n opts and ps opts
       rule: typeSwitch_astTypeFromNode_astTypeFromMapNode_astStructTypeFromNode_fieldLoop.induct)
  case (1 n opts)
  show ?case
    apply (subst typeSwitch.simps)
    apply (subst reached_unfold)
    using 1
    apply (cases "t n")
    apply (auto simp: recognized_def list_all_iff split: sum.splits list.splits)
    done
next
  case (2 n opts)
  then show ?case
    by (subst astTypeFromNode.simps) (auto split: sum.splits)
next
  case (3 n opts)
  then show ?case
    by (subst astTypeFromMapNode.simps) (cases "children n"; auto split: sum.splits)
next
  case (4 n opts)
  then show ?case
    by (subst astStructTypeFromNode.simps) (auto simp: sortedChildren_def split: sum.splits)
next
  case (5 opts)
  show ?case by simp
next
  case (6 child rest opts)
  then show ?case
    by (auto split: sum.splits)
qed

lemma reached_subset_nodesOf: "set (reached n) \<subseteq> set (nodesOf n)"
proof (induction n)
  case (Node ty nm ex k cs al awn nl rq rt)
  have obj: "(\<Union>c\<in>set cs. set (reached c)) \<subseteq> (\<Union>c\<in>set cs. set (nodesOf c))"
    using Node by blast
  have mp: "set (case cs of [] \<Rightarrow> [] | c # _ \<Rightarrow> reached c)
            \<subseteq> (\<Union>c\<in>set cs. set (nodesOf c))"
  proof (cases cs)
    case Nil
    then show ?thesis by simp
  next
    case (Cons c rest)
    with Node [of c] show ?thesis by auto
  qed
  from obj mp show ?case
    by (cases "ty = nodeObjectType"; cases "ty = nodeMapType") auto
qed

lemma astMakeDecls_succeeds_iff:
  "(\<exists>ds. astMakeDecls rootNodes opts = Inr ds)
   = (\<forall>r\<in>set rootNodes. list_all recognized (reached r))"
proof (induction rootNodes)
  case Nil
  show ?case by simp
next
  case (Cons r rootNodes)
  from synthesis_succeeds_iff(2) [of r opts] Cons show ?case
    by (auto split: sum.splits)
qed

text \<open>
  Claim C9. On a tree whose nodes all have a kind that the type switch names, the
  synthesizer returns a type, and so does it already when the nodes it reaches have such
  kinds. When a node of another kind is reached, the synthesizer panics; the panic of any
  root node ends \<open>astMakeDecls\<close> and \<open>emit\<close> with the error and without any declaration
  or text.
\<close>

theorem unknown_kind_panics:
  "((\<forall>m\<in>set (nodesOf n). recognized m) \<longrightarrow> (\<exists>ty. astTypeFromNode n opts = Inr ty))
 \<and> ((\<forall>m\<in>set (reached n). recognized m) \<longrightarrow> (\<exists>ty. astTypeFromNode n opts = Inr ty))
 \<and> ((\<exists>m\<in>set (reached n). \<not> recognized m) \<longrightarrow> astTypeFromNode n opts = Inl UnknownType)
 \<and> ((\<forall>r\<in>set rootNodes. \<forall>m\<in>set (reached r). recognized m) \<longrightarrow>
      (\<exists>decls. astMakeDecls rootNodes opts = Inr decls
             \<and> emit Fprint rootNodes opts = Inr (astPrintDecls Fprint decls)))
 \<and> ((\<exists>r\<in>set rootNodes. \<exists>m\<in>set (reached r). \<not> recognized m) \<longrightarrow>
      astMakeDecls rootNodes opts = Inl UnknownType
    \<and> emit Fprint rootNodes opts = Inl UnknownType)"
proof -
  have ok: "\<exists>ty. astTypeFromNode n opts = Inr ty" if "\<forall>m\<in>set (reached n). recognized m"
    using that synthesis_succeeds_iff(2) [of n opts] by (simp add: list_all_iff)
  have all: "\<exists>ty. astTypeFromNode n opts = Inr ty" if "\<forall>m\<in>set (nodesOf n). recognized m"
    using that reached_subset_nodesOf [of n] by (intro ok) blast
  have bad: "astTypeFromNode n opts = Inl UnknownType" if "\<exists>m\<in>set (reached n). \<not> recognized m"
  proof (cases "astTypeFromNode n opts")
    case (Inl e)
    then show ?thesis by (simp add: error_is_UnknownType [of e])
  next
    case (Inr ty)
    with synthesis_succeeds_iff(2) [of n opts] that show ?thesis
      by (auto simp: list_all_iff)
  qed
  have oks: "\<exists>decls. astMakeDecls rootNodes opts = Inr decls
             \<and> emit Fprint rootNodes opts = Inr (astPrintDecls Fprint decls)"
    if "\<forall>r\<in>set rootNodes. \<forall>m\<in>set (reached r). recognized m"
  proof -
    from that astMakeDecls_succeeds_iff [of rootNodes opts]
    obtain decls where "astMakeDecls rootNodes opts = Inr decls"
      by (auto simp: list_all_iff)
    then show ?thesis by (simp add: emit_def)
  qed
  have bads: "astMakeDecls rootNodes opts = Inl UnknownType
            \<and> emit Fprint rootNodes opts = Inl UnknownType"
    if "\<exists>r\<in>set rootNodes. \<exists>m\<in>set (reached r). \<not> recognized m"
  proof (cases "astMakeDecls rootNodes opts")
    case (Inl e)
    then show ?thesis by (simp add: emit_def error_is_UnknownType [of e])
  next
    case (Inr decls)
    with astMakeDecls_succeeds_iff [of rootNodes opts] that show ?thesis
      by (auto simp: list_all_iff)
  qed
  from ok all bad oks bads show ?thesis by blast
qed

theorem unknown_kind_panics_witness:
  "astTypeFromNode
     (Node nodeObjectType ''Doc'' [] []
        [Node nodeBoolType ''Ok'' [] ''ok'' [] 0 False False True False,
         Node nodeMapType ''Tags'' [] ''tags''
           [Node nodeOtherType ''Tag'' [] ''tag'' [] 0 False False True False]
           0 False False True False]
        0 False False True True)
     \<lparr>stringPointersWhenKeyMissing = True, timeAsStr = False\<rparr>
   = Inl UnknownType
 \<and> astMakeDecls
     [Node nodeIntType ''Count'' [] [] [] 0 False False True True,
      Node nodeOtherType ''Broken'' [] [] [] 0 False False True True]
     \<lparr>stringPointersWhenKeyMissing = True, timeAsStr = False\<rparr>
   = Inl UnknownType
 \<and> (\<exists>ty. astTypeFromNode
     (Node nodeStringType ''Name'' [] ''name''
        [Node nodeOtherType ''Tag'' [] ''tag'' [] 0 False False True False]
        0 False False True False)
     \<lparr>stringPointersWhenKeyMissing = True, timeAsStr = False\<rparr> = Inr ty)"
  using unknown_kind_panics
    [of "Node nodeObjectType ''Doc'' [] []
        [Node nodeBoolType ''Ok'' [] ''ok'' [] 0 False False True False,
         Node nodeMapType ''Tags'' [] ''tags''
           [Node nodeOtherType ''Tag'' [] ''tag'' [] 0 False False True False]
           0 False False True False]
        0 False False True True"
      "\<lparr>stringPointersWhenKeyMissing = True, timeAsStr = False\<rparr>"
      "[Node nodeIntType ''Count'' [] [] [] 0 False False True True,
        Node nodeOtherType ''Broken'' [] [] [] 0 False False True True]"
      "\<lambda>decls. []"]
    unknown_kind_panics
    [of "Node nodeStringType ''Name'' [] ''name''
        [Node nodeOtherType ''Tag'' [] ''tag'' [] 0 False False True False]
        0 False False True False"
      "\<lparr>stringPointersWhenKeyMissing = True, timeAsStr = False\<rparr>"
      "[]" "\<lambda>decls. []"]
  by (simp add: recognized_def)

subsection \<open>Order of the fields\<close>






lemma sorted_perm_unique:
  assumes "distinct (map name (children n))"
    and "mset ys = mset (map (\<lambda>child. (name child, child)) (children n))"
    and "sorted (map fst ys)"
  shows "ys = sortedChildren n"
proof -
  let ?ps = "map (\<lambda>child. (name child, child)) (children n)"
  from assms(1) have "distinct (map fst ?ps)"
    by (simp add: comp_def)
  then have "inj_on fst (set ?ps)"
    by (simp only: distinct_map)
  from sort_key_inj_key_eq [OF assms(2) [symmetric] this assms(3)]
  show ?thesis by (simp add: sortedChildren_def)
qed










end
